theory Spec2Isabelle
  imports Main "HOL-Library.Multiset"
begin

section \<open>fdice: dice expressions compiled to roll functions (src/fdice.js)\<close>

text \<open>
  JavaScript numbers that the code handles are integers (die faces, counts, constants
  clamped by lodash \<^verbatim>\<open>toSafeInteger\<close>); they are modelled as \<open>int\<close>. Strings are
  ASCII \<open>string\<close>s. The random module (\<^verbatim>\<open>random.die\<close>) is a parameter \<open>rnd\<close>: a
  function from the number of sides and the state of the random source to the value
  rolled and the next state. Every exception class of the file is a constructor of
  \<open>error\<close>; \<open>TypeError\<close> is the built-in exception of the language.
\<close>

datatype error =
    ExpressionTooLong
  | InvalidChunk
  | DieTooBig
  | TooManyDice
  | RollLimitExceeded
  | TooManyChunks
  | TypeError

definition MAX_CHUNKS :: int where "MAX_CHUNKS = 10"
definition MAX_DICE :: int where "MAX_DICE = 100"
definition MAX_FACES :: int where "MAX_FACES = 1000"
definition MAX_LENGTH :: int where "MAX_LENGTH = 60"

subsection \<open>Modifier functions\<close>

text \<open>
  A modifier is \<^verbatim>\<open>(arg, reroll) => rolls => ...\<close>. The roller handed to a modifier is
  \<^verbatim>\<open>rollDice(1)\<close>, whose array has exactly one entry, and every use is \<^verbatim>\<open>reroll()[0]\<close>:
  the model's \<open>reroll\<close> returns that entry together with the next state of the source.
\<close>

text \<open>\<^verbatim>\<open>rolls.map(r => r === arg ? reroll()[0] : r)\<close>, left to right.\<close>

fun reroll :: "int \<Rightarrow> ('s \<Rightarrow> int \<times> 's) \<Rightarrow> int list \<Rightarrow> 's \<Rightarrow> int list \<times> 's" where
  "reroll arg rr [] s = ([], s)"
| "reroll arg rr (r # rs) s =
     (if r = arg
      then (let (v, s1) = rr s; (out, s2) = reroll arg rr rs s1 in (v # out, s2))
      else (let (out, s2) = reroll arg rr rs s in (r # out, s2)))"

text \<open>\<^verbatim>\<open>rolls.flatMap(r => r === arg ? [r, r] : r)\<close>; the roller is not used.\<close>

definition twice :: "int \<Rightarrow> 'r \<Rightarrow> int list \<Rightarrow> int list" where
  "twice arg rr rolls = concat (map (\<lambda>r. if r = arg then [r, r] else [r]) rolls)"

text \<open>
  \<^verbatim>\<open>rolls.sort(cmp)\<close> sorts the array it is called on, in place, and returns that same
  array; lodash \<^verbatim>\<open>takeWhile\<close>/\<^verbatim>\<open>dropWhile\<close> with the predicate \<^verbatim>\<open>(v, i) => i < arg\<close>
  return a new array holding the first \<open>arg\<close> entries, or all but them. The four
  keep/drop modifiers therefore return a pair: the array returned, and the contents of
  the caller's array after the call.
\<close>

definition sortAsc :: "int list \<Rightarrow> int list" where
  "sortAsc rolls = sort rolls"

definition sortDesc :: "int list \<Rightarrow> int list" where
  "sortDesc rolls = rev (sort rolls)"

definition keepHighest :: "int \<Rightarrow> 'r \<Rightarrow> int list \<Rightarrow> int list \<times> int list" where
  "keepHighest arg rr rolls = (take (nat arg) (sortDesc rolls), sortDesc rolls)"

definition keepLowest :: "int \<Rightarrow> 'r \<Rightarrow> int list \<Rightarrow> int list \<times> int list" where
  "keepLowest arg rr rolls = (take (nat arg) (sortAsc rolls), sortAsc rolls)"

definition dropLowest :: "int \<Rightarrow> 'r \<Rightarrow> int list \<Rightarrow> int list \<times> int list" where
  "dropLowest arg rr rolls = (drop (nat arg) (sortAsc rolls), sortAsc rolls)"

definition dropHighest :: "int \<Rightarrow> 'r \<Rightarrow> int list \<Rightarrow> int list \<times> int list" where
  "dropHighest arg rr rolls = (drop (nat arg) (sortDesc rolls), sortDesc rolls)"

text \<open>
  During an explosion the array holds numbers and the marker \<^verbatim>\<open>'X'\<close>, which stands for
  a die that has already exploded.
\<close>

datatype slot = X | V int

text \<open>
  One pass of the loop body:
  \<^verbatim>\<open>newRolls.flatMap(r => r === arg ? ['X', reroll()[0]] : r)\<close>.
\<close>

fun explodePass :: "int \<Rightarrow> ('s \<Rightarrow> int \<times> 's) \<Rightarrow> slot list \<Rightarrow> 's \<Rightarrow> slot list \<times> 's" where
  "explodePass arg rr [] s = ([], s)"
| "explodePass arg rr (r # rs) s =
     (if r = V arg
      then (let (v, s1) = rr s; (out, s2) = explodePass arg rr rs s1 in (X # V v # out, s2))
      else (let (out, s2) = explodePass arg rr rs s in (r # out, s2)))"

text \<open>
  \<^verbatim>\<open>while (sentinel-- > 0 && newRolls.some(i => i === arg)) { ... }\<close>: the sentinel is
  compared, then decremented whatever the comparison gave, and the array is searched
  only when the comparison held. The function returns the sentinel, the array and the
  source as the loop leaves them.
\<close>

function explodeLoop ::
  "int \<Rightarrow> ('s \<Rightarrow> int \<times> 's) \<Rightarrow> int \<Rightarrow> slot list \<Rightarrow> 's \<Rightarrow> int \<times> slot list \<times> 's" where
  "explodeLoop arg rr sentinel newRolls s =
     (if sentinel > 0 \<and> V arg \<in> set newRolls
      then (let (newRolls', s') = explodePass arg rr newRolls s
            in explodeLoop arg rr (sentinel - 1) newRolls' s')
      else (sentinel - 1, newRolls, s))"
  by pat_completeness auto
termination
  by (relation "measure (\<lambda>(arg, rr, sentinel, newRolls, s). nat sentinel)") auto

declare explodeLoop.simps [simp del]

definition explode ::
  "int \<Rightarrow> ('s \<Rightarrow> int \<times> 's) \<Rightarrow> int list \<Rightarrow> 's \<Rightarrow> (error + int list) \<times> 's" where
  "explode arg rr rolls s =
     (let (sentinel, newRolls, s') =
            explodeLoop arg rr (MAX_DICE - int (length rolls)) (map V rolls) s
      in if sentinel < 0 then (Inl RollLimitExceeded, s')
         else (Inr (map (\<lambda>r. case r of X \<Rightarrow> arg | V v \<Rightarrow> v) newRolls), s'))"

subsection \<open>Characters, strings and numbers\<close>

definition isDigit :: "char \<Rightarrow> bool" where
  "isDigit c = (c \<in> set ''0123456789'')"

definition isSign :: "char \<Rightarrow> bool" where
  "isSign c = (c = CHR ''+'' \<or> c = CHR ''-'')"

definition isUpper :: "char \<Rightarrow> bool" where
  "isUpper c = (c \<in> set ''ABCDEFGHIJKLMNOPQRSTUVWXYZ'')"

definition isLower :: "char \<Rightarrow> bool" where
  "isLower c = (c \<in> set ''abcdefghijklmnopqrstuvwxyz'')"

text \<open>An ASCII letter changes case by its bit of weight 32.\<close>

definition toLowerChar :: "char \<Rightarrow> char" where
  "toLowerChar c =
     (if isUpper c
      then (case c of Char b0 b1 b2 b3 b4 b5 b6 b7 \<Rightarrow> Char b0 b1 b2 b3 b4 True b6 b7)
      else c)"

definition toUpperChar :: "char \<Rightarrow> char" where
  "toUpperChar c =
     (if isLower c
      then (case c of Char b0 b1 b2 b3 b4 b5 b6 b7 \<Rightarrow> Char b0 b1 b2 b3 b4 False b6 b7)
      else c)"

definition toLower :: "string \<Rightarrow> string" where
  "toLower str = map toLowerChar str"

definition toUpperCase :: "string \<Rightarrow> string" where
  "toUpperCase str = map toUpperChar str"

text \<open>
  \<^verbatim>\<open>replaceAll(' ', '')\<close>, that is \<^verbatim>\<open>haystack.split(' ').join('')\<close>: every space
  character is removed, and no other character is.
\<close>

definition replaceAllSpaces :: "string \<Rightarrow> string" where
  "replaceAllSpaces haystack = filter (\<lambda>c. c \<noteq> CHR '' '') haystack"

definition startsWith :: "char \<Rightarrow> string \<Rightarrow> bool" where
  "startsWith c str = (case str of [] \<Rightarrow> False | x # _ \<Rightarrow> x = c)"

text \<open>The prefix \<^verbatim>\<open>[+-]?\<close> of a pattern, taken off a string.\<close>

definition dropSign :: "string \<Rightarrow> string" where
  "dropSign str = (case str of [] \<Rightarrow> [] | c # cs \<Rightarrow> if isSign c then cs else c # cs)"

text \<open>The value of a decimal digit is its distance from the character 0.\<close>

definition digitVal :: "char \<Rightarrow> int" where
  "digitVal c = of_char c - of_char (CHR ''0'')"

definition digitsValue :: "string \<Rightarrow> int" where
  "digitsValue ds = foldl (\<lambda>acc c. 10 * acc + digitVal c) 0 ds"

definition MAX_SAFE_INTEGER :: int where
  "MAX_SAFE_INTEGER = 9007199254740991"

text \<open>
  lodash \<^verbatim>\<open>toSafeInteger\<close> on the strings that the chunk grammar lets reach it, which
  have the form \<^verbatim>\<open>[+-]?\d*\<close>: the empty string gives 0, a lone sign converts to NaN
  and gives 0, anything else is its decimal value clamped to the safe integers (a
  digit string beyond 2^53 converts to a double of at least 2^53, so the clamp gives
  the same value as on the exact integer).
\<close>

definition toSafeInteger :: "string \<Rightarrow> int" where
  "toSafeInteger str =
     (let ds = dropSign str;
          n = (if ds \<noteq> [] \<and> list_all isDigit ds then digitsValue ds else 0);
          v = (if startsWith (CHR ''-'') str then - n else n)
      in max (- MAX_SAFE_INTEGER) (min MAX_SAFE_INTEGER v))"

subsection \<open>Chunk grammar and splitter\<close>

text \<open>
  \<^verbatim>\<open>DICE_MODIFIERS = '[dk][lh]\\d*|[rt!][+-]?\\d*'\<close>, matched against a whole string.
\<close>

definition isModifier :: "string \<Rightarrow> bool" where
  "isModifier str =
     (case str of
        [] \<Rightarrow> False
      | a # rest \<Rightarrow>
          if a \<in> set ''dk''
          then (case rest of [] \<Rightarrow> False | b # ds \<Rightarrow> b \<in> set ''lh'' \<and> list_all isDigit ds)
          else if a \<in> set ''rt!'' then list_all isDigit (dropSign rest)
          else False)"

text \<open>
  \<^verbatim>\<open>DICE_CHUNK = (?<num>\d*)d(?<die>f|%|[\d]+)(?<modifier>DICE_MODIFIERS)?\<close>, matched
  against a whole string: the groups num, die and modifier (\<open>None\<close> when the optional
  group takes no part), or \<open>None\<close> when the string does not match.
\<close>

definition modifierGroup :: "string \<Rightarrow> string \<Rightarrow> string \<Rightarrow> (string \<times> string \<times> string option) option" where
  "modifierGroup numG dieG rest =
     (if rest = [] then Some (numG, dieG, None)
      else if isModifier rest then Some (numG, dieG, Some rest)
      else None)"

definition matchDiceChunk :: "string \<Rightarrow> (string \<times> string \<times> string option) option" where
  "matchDiceChunk str =
     (let numG = takeWhile isDigit str in
      case dropWhile isDigit str of
        [] \<Rightarrow> None
      | c # afterD \<Rightarrow>
          if c \<noteq> CHR ''d'' then None
          else (case afterD of
                  [] \<Rightarrow> None
                | f # rest \<Rightarrow>
                    if f = CHR ''f'' \<or> f = CHR ''%'' then modifierGroup numG [f] rest
                    else if isDigit f
                    then modifierGroup numG (takeWhile isDigit afterD) (dropWhile isDigit afterD)
                    else None))"

text \<open>\<^verbatim>\<open>VALID_CHUNK = ^([+-]?)(DICE_CHUNK|\d+)$\<close> and its negation.\<close>

definition isInvalidChunk :: "string \<Rightarrow> bool" where
  "isInvalidChunk chunkStr =
     (let body = dropSign chunkStr
      in \<not> (matchDiceChunk body \<noteq> None \<or> (body \<noteq> [] \<and> list_all isDigit body)))"

text \<open>
  \<^verbatim>\<open>str.split(/(?<![rt!])(?=[+-])/)\<close>. The pattern matches the empty string before a
  sign that does not follow one of r, t, ! . Splitting walks the string: \<open>cur\<close> is the
  piece begun at the last split, \<open>prev\<close> the character before the position looked at.
  A match at the start of a piece (the very first position too) does not split, so no
  piece is empty; the empty string gives one empty piece.
\<close>

definition boundary :: "char \<Rightarrow> char \<Rightarrow> bool" where
  "boundary prev c = (isSign c \<and> prev \<notin> set ''rt!'')"

fun splitFrom :: "string \<Rightarrow> char \<Rightarrow> string \<Rightarrow> string list" where
  "splitFrom cur prev [] = [cur]"
| "splitFrom cur prev (c # cs) =
     (if boundary prev c then cur # splitFrom [c] c cs
      else splitFrom (cur @ [c]) c cs)"

definition chunk :: "string \<Rightarrow> string list" where
  "chunk str = (case str of [] \<Rightarrow> [[]] | c # cs \<Rightarrow> splitFrom [c] c cs)"

subsection \<open>Default arguments and the modifier of a chunk\<close>

type_synonym 's modifierFunction = "int list \<Rightarrow> 's \<Rightarrow> (error + int list) \<times> 's"

text \<open>
  The registry \<^verbatim>\<open>modifierFunctions\<close>, applied to \<^verbatim>\<open>(arg, reroll)\<close>. A key that is not
  in the object gives \<^verbatim>\<open>undefined\<close> (\<open>None\<close>). The keep/drop modifiers hand back the
  array they return; the array they sorted in place is the chunk's own.
\<close>

definition modifierFunctions ::
  "string \<Rightarrow> (int \<Rightarrow> ('s \<Rightarrow> int \<times> 's) \<Rightarrow> 's modifierFunction) option" where
  "modifierFunctions key =
     (if key = ''R'' then Some (\<lambda>arg rr rolls s. case reroll arg rr rolls s of (out, s') \<Rightarrow> (Inr out, s'))
      else if key = ''T'' then Some (\<lambda>arg rr rolls s. (Inr (twice arg rr rolls), s))
      else if key = ''!'' then Some explode
      else if key = ''KH'' then Some (\<lambda>arg rr rolls s. (Inr (fst (keepHighest arg rr rolls)), s))
      else if key = ''KL'' then Some (\<lambda>arg rr rolls s. (Inr (fst (keepLowest arg rr rolls)), s))
      else if key = ''DH'' then Some (\<lambda>arg rr rolls s. (Inr (fst (dropHighest arg rr rolls)), s))
      else if key = ''DL'' then Some (\<lambda>arg rr rolls s. (Inr (fst (dropLowest arg rr rolls)), s))
      else None)"

definition defaultModifierArg :: "string \<Rightarrow> int \<Rightarrow> int \<Rightarrow> int \<Rightarrow> int" where
  "defaultModifierArg modifier num lowest highest =
     (if modifier = ''R'' then lowest
      else if modifier = ''T'' then highest
      else if modifier = ''!'' then highest
      else min 1 (num - 1))"

text \<open>
  \<^verbatim>\<open>modifier.match(/(?<func>[a-z!]+)(?<rest>.*)/)\<close> on a modifier of the grammar: func is
  its leading run of lower-case letters and !, rest what follows. The argument
  computed from them is \<open>modifierArg\<close>. Note the order of the parameters: createModifier
  is \<^verbatim>\<open>(modifier, reroll, num, highest, lowest)\<close> and calls
  \<^verbatim>\<open>defaultModifierArg(func, num, highest, lowest)\<close>, whose parameters are
  \<^verbatim>\<open>(modifier, num, lowest, highest)\<close>.
\<close>

definition isFuncChar :: "char \<Rightarrow> bool" where
  "isFuncChar c = (isLower c \<or> c = CHR ''!'')"

definition modifierArg :: "string \<Rightarrow> int \<Rightarrow> int \<Rightarrow> int \<Rightarrow> int" where
  "modifierArg modifier num highest lowest =
     (let func = toUpperCase (takeWhile isFuncChar modifier);
          rest = dropWhile isFuncChar modifier
      in if length rest = 0 then defaultModifierArg func num highest lowest
         else toSafeInteger rest)"

definition createModifier ::
  "string option \<Rightarrow> ('s \<Rightarrow> int \<times> 's) \<Rightarrow> int \<Rightarrow> int \<Rightarrow> int \<Rightarrow> error + 's modifierFunction" where
  "createModifier modifier rr num highest lowest =
     (case modifier of
        None \<Rightarrow> Inr (\<lambda>rolls s. (Inr rolls, s))
      | Some m \<Rightarrow>
          (let func = toUpperCase (takeWhile isFuncChar m);
               arg = modifierArg m num highest lowest
           in case modifierFunctions func of
                None \<Rightarrow> Inl TypeError
              | Some f \<Rightarrow> Inr (f arg rr)))"

subsection \<open>Chunk compiler\<close>

text \<open>What one chunk contributes to the unreduced output: an array or a bare number.\<close>

datatype part = Pool "int list" | Scalar int

type_synonym 's chunkFunction = "'s \<Rightarrow> (error + part) \<times> 's"

text \<open>
  \<^verbatim>\<open>diceFunc(die, offset)(num)()\<close>: \<open>num\<close> dice rolled one after the other, each
  \<^verbatim>\<open>random.die(die) + offset\<close>; \<open>rollOne\<close> is the single entry of
  \<^verbatim>\<open>diceFunc(die, offset)(1)()\<close>.
\<close>

definition rollOne :: "(int \<Rightarrow> 's \<Rightarrow> int \<times> 's) \<Rightarrow> int \<Rightarrow> int \<Rightarrow> 's \<Rightarrow> int \<times> 's" where
  "rollOne rnd die offset s = (case rnd die s of (v, s') \<Rightarrow> (v + offset, s'))"

fun diceFunc :: "(int \<Rightarrow> 's \<Rightarrow> int \<times> 's) \<Rightarrow> int \<Rightarrow> int \<Rightarrow> nat \<Rightarrow> 's \<Rightarrow> int list \<times> 's" where
  "diceFunc rnd die offset 0 s = ([], s)"
| "diceFunc rnd die offset (Suc n) s =
     (case rollOne rnd die offset s of
        (v, s1) \<Rightarrow> (case diceFunc rnd die offset n s1 of (vs, s2) \<Rightarrow> (v # vs, s2)))"

definition maybeNegate :: "bool \<Rightarrow> int list \<Rightarrow> int list" where
  "maybeNegate negative rolls = (if negative then map uminus rolls else rolls)"

text \<open>
  \<^verbatim>\<open>flow(rollDice(num), applyModifier, maybeNegate)\<close>: an error of the modifier ends the
  evaluation of the chunk.
\<close>

definition rollChunk ::
  "('s \<Rightarrow> int list \<times> 's) \<Rightarrow> 's modifierFunction \<Rightarrow> bool \<Rightarrow> 's chunkFunction" where
  "rollChunk rollDice applyModifier negative s =
     (case rollDice s of
        (rolls, s1) \<Rightarrow>
          (case applyModifier rolls s1 of
             (Inl e, s2) \<Rightarrow> (Inl e, s2)
           | (Inr out, s2) \<Rightarrow> (Inr (Pool (maybeNegate negative out)), s2)))"

text \<open>
  The values createRoll computes from the groups of a chunk:
  \<^verbatim>\<open>num = isNil(num) || num.length === 0 ? 1 : toSafeInteger(num)\<close>, and from
  \<^verbatim>\<open>die = die.toUpperCase()\<close> the offset \<^verbatim>\<open>die === 'F' ? -2 : 0\<close> and the number of faces
  \<^verbatim>\<open>die === '%' ? 100 : die === 'F' ? 3 : toSafeInteger(die)\<close>.
\<close>

definition poolSize :: "string \<Rightarrow> int" where
  "poolSize numG = (if length numG = 0 then 1 else toSafeInteger numG)"

definition dieOffset :: "string \<Rightarrow> int" where
  "dieOffset dieG = (if toUpperCase dieG = ''F'' then - 2 else 0)"

definition dieFaces :: "string \<Rightarrow> int" where
  "dieFaces dieG =
     (if toUpperCase dieG = ''%'' then 100
      else if toUpperCase dieG = ''F'' then 3
      else toSafeInteger (toUpperCase dieG))"

text \<open>
  The part of createRoll that follows the match of DICE_CHUNK, from the groups
  \<^verbatim>\<open>{ num, die, modifier }\<close>: the two limits, then
  \<^verbatim>\<open>createModifier(modifier, rollDice(1), num, 1 + offset, die + offset)\<close> and
  \<^verbatim>\<open>flow(rollDice(num), applyModifier, maybeNegate)\<close>.
\<close>

definition rollFromGroups ::
  "(int \<Rightarrow> 's \<Rightarrow> int \<times> 's) \<Rightarrow> bool \<Rightarrow> string \<times> string \<times> string option
     \<Rightarrow> error + 's chunkFunction" where
  "rollFromGroups rnd negative groups =
     (case groups of
        (numG, dieG, modifier) \<Rightarrow>
          if poolSize numG > MAX_DICE then Inl TooManyDice
          else if dieFaces dieG > MAX_FACES then Inl DieTooBig
          else (case createModifier modifier (rollOne rnd (dieFaces dieG) (dieOffset dieG))
                       (poolSize numG) (1 + dieOffset dieG) (dieFaces dieG + dieOffset dieG) of
                  Inl e \<Rightarrow> Inl e
                | Inr applyModifier \<Rightarrow>
                    Inr (rollChunk
                           (diceFunc rnd (dieFaces dieG) (dieOffset dieG) (nat (poolSize numG)))
                           applyModifier negative)))"

text \<open>
  createRoll. parse hands it only chunks that VALID_CHUNK accepts; on those the first
  match of DICE_CHUNK in \<^verbatim>\<open>rollExpr\<close> is the whole of it, which \<open>matchDiceChunk\<close>
  computes. Without a match, \<^verbatim>\<open>.groups\<close> of null is a TypeError.
\<close>

definition rollExprOf :: "string \<Rightarrow> string" where
  "rollExprOf chunkStr =
     drop (if startsWith (CHR ''-'') chunkStr \<or> startsWith (CHR ''+'') chunkStr then 1 else 0)
       chunkStr"

definition createRoll :: "(int \<Rightarrow> 's \<Rightarrow> int \<times> 's) \<Rightarrow> string \<Rightarrow> error + 's chunkFunction" where
  "createRoll rnd chunkStr =
     (case matchDiceChunk (rollExprOf chunkStr) of
        None \<Rightarrow> Inl TypeError
      | Some groups \<Rightarrow> rollFromGroups rnd (startsWith (CHR ''-'') chunkStr) groups)"

definition createConst :: "string \<Rightarrow> 's chunkFunction" where
  "createConst chunkStr s = (Inr (Scalar (toSafeInteger chunkStr)), s)"

definition createPart :: "(int \<Rightarrow> 's \<Rightarrow> int \<times> 's) \<Rightarrow> string \<Rightarrow> error + 's chunkFunction" where
  "createPart rnd chunkStr =
     (if CHR ''d'' \<notin> set chunkStr then Inr (createConst chunkStr) else createRoll rnd chunkStr)"

subsection \<open>Expression compiler\<close>

text \<open>\<^verbatim>\<open>chunks.map(createPart)\<close>: the first chunk that fails to compile ends the map.\<close>

fun createParts :: "(int \<Rightarrow> 's \<Rightarrow> int \<times> 's) \<Rightarrow> string list \<Rightarrow> error + 's chunkFunction list" where
  "createParts rnd [] = Inr []"
| "createParts rnd (c # cs) =
     (case createPart rnd c of
        Inl e \<Rightarrow> Inl e
      | Inr p \<Rightarrow> (case createParts rnd cs of Inl e \<Rightarrow> Inl e | Inr ps \<Rightarrow> Inr (p # ps)))"

text \<open>\<^verbatim>\<open>roll = () => parts.map(part => part())\<close>, in order, stopping at an error.\<close>

fun roll :: "'s chunkFunction list \<Rightarrow> 's \<Rightarrow> (error + part list) \<times> 's" where
  "roll [] s = (Inr [], s)"
| "roll (p # ps) s =
     (case p s of
        (Inl e, s1) \<Rightarrow> (Inl e, s1)
      | (Inr v, s1) \<Rightarrow>
          (case roll ps s1 of
             (Inl e, s2) \<Rightarrow> (Inl e, s2)
           | (Inr vs, s2) \<Rightarrow> (Inr (v # vs), s2)))"

text \<open>\<^verbatim>\<open>.flat()\<close>: arrays are spliced in, numbers stay.\<close>

definition flat :: "part list \<Rightarrow> int list" where
  "flat parts = concat (map (\<lambda>p. case p of Pool rolls \<Rightarrow> rolls | Scalar n \<Rightarrow> [n]) parts)"

text \<open>
  \<^verbatim>\<open>.reduce(sum)\<close> with \<^verbatim>\<open>sum = (acc, val) => acc + val\<close> and no initial value: the
  first element starts the accumulator, and an empty array is a TypeError.
\<close>

definition reduceSum :: "int list \<Rightarrow> error + int" where
  "reduceSum xs = (case xs of [] \<Rightarrow> Inl TypeError | x # rest \<Rightarrow> Inr (foldl (+) x rest))"

datatype result = Reduced int | Unreduced "part list"

text \<open>\<^verbatim>\<open>(reduce = true) => reduce ? roll().flat().reduce(sum) : roll()\<close>.\<close>

definition evaluator :: "'s chunkFunction list \<Rightarrow> bool \<Rightarrow> 's \<Rightarrow> (error + result) \<times> 's" where
  "evaluator parts reduce s =
     (case roll parts s of
        (Inl e, s') \<Rightarrow> (Inl e, s')
      | (Inr vs, s') \<Rightarrow>
          if reduce
          then (case reduceSum (flat vs) of
                  Inl e \<Rightarrow> (Inl e, s')
                | Inr n \<Rightarrow> (Inr (Reduced n), s'))
          else (Inr (Unreduced vs), s'))"

text \<open>
  The expression as parse normalizes it before splitting:
  \<^verbatim>\<open>flow(toString, toLower, replaceAll(' ', ''), chunk)(expr)\<close>.
\<close>

definition normalized :: "string \<Rightarrow> string" where
  "normalized expr = replaceAllSpaces (toLower expr)"

definition parse ::
  "(int \<Rightarrow> 's \<Rightarrow> int \<times> 's) \<Rightarrow> string \<Rightarrow> error + (bool \<Rightarrow> 's \<Rightarrow> (error + result) \<times> 's)" where
  "parse rnd expr =
     (if int (length expr) > MAX_LENGTH then Inl ExpressionTooLong
      else (let chunks = chunk (normalized expr)
            in if int (length chunks) > MAX_CHUNKS then Inl TooManyChunks
               else if list_ex isInvalidChunk chunks then Inl InvalidChunk
               else (case createParts rnd chunks of
                       Inl e \<Rightarrow> Inl e
                     | Inr parts \<Rightarrow> Inr (evaluator parts))))"

subsection \<open>Running an expression once\<close>

text \<open>
  \<^verbatim>\<open>parse(expr)(reduce)\<close>, as the tests call it: the outer result is that of compiling,
  the inner one that of the evaluation.
\<close>

definition parseAndRoll ::
  "(int \<Rightarrow> 's \<Rightarrow> int \<times> 's) \<Rightarrow> string \<Rightarrow> bool \<Rightarrow> 's \<Rightarrow> error + (error + result)" where
  "parseAndRoll rnd expr reduce s =
     (case parse rnd expr of Inl e \<Rightarrow> Inl e | Inr ev \<Rightarrow> Inr (fst (ev reduce s)))"

text \<open>
  The random source of the tests, \<^verbatim>\<open>spyOn(random, 'die').withArgs(n).and.returnValues(...)\<close>:
  the state gives, for each number of sides, the values still to be returned. (Once a
  list is used up the spy returns \<^verbatim>\<open>undefined\<close>; no scenario below gets there, and the
  model returns 0.)
\<close>

definition scripted :: "int \<Rightarrow> (int \<Rightarrow> int list) \<Rightarrow> int \<times> (int \<Rightarrow> int list)" where
  "scripted sides s = (case s sides of [] \<Rightarrow> (0, s) | v # vs \<Rightarrow> (v, s(sides := vs)))"

definition noValues :: "int \<Rightarrow> int list" where
  "noValues sides = []"

subsection \<open>The default argument in the words of the specification\<close>

text \<open>
  The face values a pool can show, from its die group: -1 to +1 for Fudge dice, 1 to
  100 for percentile dice, 1 to N for a die of N faces; and the default argument of a
  modifier token written without one: the lowest face for reroll, the highest face
  for count-twice and explode, min(1, count - 1) for every keep/drop.
\<close>

definition specLowestFace :: "string \<Rightarrow> int" where
  "specLowestFace dieG = (if dieG = ''f'' then - 1 else 1)"

definition specHighestFace :: "string \<Rightarrow> int" where
  "specHighestFace dieG =
     (if dieG = ''f'' then 1 else if dieG = ''%'' then 100 else digitsValue dieG)"

definition specDefaultArg :: "string \<Rightarrow> int \<Rightarrow> string \<Rightarrow> int" where
  "specDefaultArg tok cnt dieG =
     (if tok = ''r'' then specLowestFace dieG
      else if tok = ''t'' \<or> tok = ''!'' then specHighestFace dieG
      else min 1 (cnt - 1))"

subsection \<open>The entry of a chunk in the unreduced result\<close>

text \<open>
  A dice-pool chunk (one with a d in it) contributes an array, a constant chunk its
  value as a bare number.
\<close>

definition partOfChunk :: "string \<Rightarrow> part \<Rightarrow> bool" where
  "partOfChunk c v =
     (if CHR ''d'' \<in> set c then (case v of Pool rolls \<Rightarrow> True | Scalar n \<Rightarrow> False)
      else v = Scalar (toSafeInteger c))"

section \<open>Properties\<close>

subsection \<open>The explode modifier\<close>

lemma explodePass_length_fst:
  "length rs \<le> length (fst (explodePass arg rr rs s))"
proof (induction rs arbitrary: s)
  case Nil
  show ?case by simp
next
  case (Cons r rs)
  show ?case
  proof (cases "r = V arg")
    case True
    obtain v s1 where a: "rr s = (v, s1)" by (cases "rr s")
    obtain out s2 where b: "explodePass arg rr rs s1 = (out, s2)"
      by (cases "explodePass arg rr rs s1")
    from Cons [of s1] True a b show ?thesis
      by simp
  next
    case False
    obtain out s2 where b: "explodePass arg rr rs s = (out, s2)"
      by (cases "explodePass arg rr rs s")
    from Cons [of s] False b show ?thesis
      by simp
  qed
qed

lemma explodePass_length:
  "explodePass arg rr rs s = (out, s') \<Longrightarrow> length rs \<le> length out"
  using explodePass_length_fst [of rs arg rr s] by simp

lemma explodeLoop_length:
  "explodeLoop arg rr n rs s = (n', out, s') \<Longrightarrow> length rs \<le> length out"
proof (induction arg rr n rs s rule: explodeLoop.induct)
  case (1 arg rr sentinel newRolls s)
  show ?case
  proof (cases "sentinel > 0 \<and> V arg \<in> set newRolls")
    case True
    obtain nr s1 where p: "explodePass arg rr newRolls s = (nr, s1)"
      by (cases "explodePass arg rr newRolls s")
    from True p "1.prems" have "explodeLoop arg rr (sentinel - 1) nr s1 = (n', out, s')"
      by (simp add: explodeLoop.simps [of arg rr sentinel])
    with "1.IH" True p have "length nr \<le> length out"
      by simp
    moreover from p have "length newRolls \<le> length nr"
      by (rule explodePass_length)
    ultimately show ?thesis by simp
  next
    case False
    with "1.prems" show ?thesis
      by (simp add: explodeLoop.simps [of arg rr sentinel])
  qed
qed

lemma explodePass_keeps_match:
  "V arg \<in> set rs \<Longrightarrow> V arg \<in> set (fst (explodePass arg (\<lambda>s. (arg, s)) rs s))"
proof (induction rs arbitrary: s)
  case Nil
  then show ?case by simp
next
  case (Cons r rs)
  obtain out s2 where b: "explodePass arg (\<lambda>s. (arg, s)) rs s = (out, s2)"
    by (cases "explodePass arg (\<lambda>s. (arg, s)) rs s")
  show ?case
  proof (cases "r = V arg")
    case True
    with b show ?thesis by simp
  next
    case False
    with Cons.prems have "V arg \<in> set rs" by simp
    from Cons.IH [OF this, of s] b False show ?thesis by simp
  qed
qed

lemma explodeLoop_always_matching:
  "rr = (\<lambda>s. (arg, s)) \<Longrightarrow> V arg \<in> set rs \<Longrightarrow> fst (explodeLoop arg rr n rs s) < 0"
proof (induction arg rr n rs s rule: explodeLoop.induct)
  case (1 arg rr sentinel newRolls s)
  show ?case
  proof (cases "sentinel > 0")
    case True
    obtain nr s1 where p: "explodePass arg rr newRolls s = (nr, s1)"
      by (cases "explodePass arg rr newRolls s")
    from explodePass_keeps_match [OF "1.prems"(2), of s] p "1.prems"(1)
    have m: "V arg \<in> set nr" by simp
    from True "1.prems"(2) have c: "sentinel > 0 \<and> V arg \<in> set newRolls" by simp
    from "1.IH" [OF c p [symmetric] refl "1.prems"(1) m]
    have "fst (explodeLoop arg rr (sentinel - 1) nr s1) < 0" .
    with c p show ?thesis
      by (simp add: explodeLoop.simps [of arg rr sentinel])
  next
    case False
    then show ?thesis
      by (simp add: explodeLoop.simps [of arg rr sentinel])
  qed
qed

lemma explode_always_matching_raises:
  "arg \<in> set rolls \<Longrightarrow> fst (explode arg (\<lambda>s. (arg, s)) rolls s) = Inl RollLimitExceeded"
proof -
  assume "arg \<in> set rolls"
  then have "V arg \<in> set (map V rolls)" by simp
  from explodeLoop_always_matching [OF refl this, of "MAX_DICE - int (length rolls)" s]
  have neg: "fst (explodeLoop arg (\<lambda>s. (arg, s)) (MAX_DICE - int (length rolls)) (map V rolls) s) < 0" .
  obtain n nr s' where l:
    "explodeLoop arg (\<lambda>s. (arg, s)) (MAX_DICE - int (length rolls)) (map V rolls) s = (n, nr, s')"
    by (cases "explodeLoop arg (\<lambda>s. (arg, s)) (MAX_DICE - int (length rolls)) (map V rolls) s")
  with neg have "n < 0" by simp
  with l show ?thesis
    by (simp add: explode_def)
qed

text \<open>
  C7: explode is a total function (its loop is defined with a termination proof: the
  sentinel decreases at every pass and the loop stops once it is not positive). Its
  outcome is either RollLimitExceeded or a list at least as long as the input; and
  when some roll matches the target and every die rolled anew matches it again, the
  outcome is RollLimitExceeded.
\<close>

theorem explode_terminates_grows_or_raises:
  "(case fst (explode arg rr rolls s) of
      Inl e \<Rightarrow> e = RollLimitExceeded
    | Inr out \<Rightarrow> length rolls \<le> length out) \<and>
   (arg \<in> set rolls \<longrightarrow>
      fst (explode arg (\<lambda>s. (arg, s)) rolls s) = Inl RollLimitExceeded)"
proof -
  obtain n nr s' where l:
    "explodeLoop arg rr (MAX_DICE - int (length rolls)) (map V rolls) s = (n, nr, s')"
    by (cases "explodeLoop arg rr (MAX_DICE - int (length rolls)) (map V rolls) s")
  from l have "length (map V rolls) \<le> length nr"
    by (rule explodeLoop_length)
  with l have "(case fst (explode arg rr rolls s) of
      Inl e \<Rightarrow> e = RollLimitExceeded
    | Inr out \<Rightarrow> length rolls \<le> length out)"
    by (simp add: explode_def)
  with explode_always_matching_raises [of arg rolls s] show ?thesis
    by blast
qed

theorem explode_terminates_grows_or_raises_witness:
  "(case fst (explode 6 (\<lambda>s. (6, s)) [6, 2] ()) of
      Inl e \<Rightarrow> e = RollLimitExceeded
    | Inr out \<Rightarrow> length [6, 2 :: int] \<le> length out) \<and>
   (6::int) \<in> set [6, 2] \<and>
   fst (explode 6 (\<lambda>s. (6, s)) [6, 2] ()) = Inl RollLimitExceeded \<and>
   fst (explode 6 (\<lambda>s. (1, s)) [6, 2] ()) = Inr [6, 1, 2]"
proof -
  have "fst (explode 6 (\<lambda>s. (1, s)) [6, 2] ()) = Inr [6, 1, 2]"
    by code_simp
  with explode_terminates_grows_or_raises
         [where arg = 6 and rr = "\<lambda>s. (6, s)" and rolls = "[6, 2]" and s = "()"]
  show ?thesis by simp
qed

text \<open>
  C1: a pool of MAX_DICE dice none of which matches the target. The sentinel starts at
  0, the comparison \<^verbatim>\<open>sentinel-- > 0\<close> fails and leaves it at -1, and explode raises
  RollLimitExceeded although nothing was to explode.
\<close>

theorem explode_full_pool_without_match_raises:
  "explode 6 rr (replicate 100 1) s = (Inl RollLimitExceeded, s)"
  by (simp add: explode_def MAX_DICE_def explodeLoop.simps)

text \<open>
  The sentinel counts passes of the loop, not dice: sixty dice that all explode once
  give a pool of 120 dice, and explode returns it.
\<close>

lemma explode_returns_more_than_max_dice:
  "explode 10 (\<lambda>s. (1, s)) (replicate 60 10) () = (Inr (concat (replicate 60 [10, 1])), ())"
  by code_simp

subsection \<open>The chunk splitter\<close>

lemma splitFrom_concat: "concat (splitFrom cur prev str) = cur @ str"
  by (induction str arbitrary: cur prev) simp_all

text \<open>
  C10: the chunks of any string, concatenated in order, are that string; and the sign
  of the argument in \<^verbatim>\<open>4dfr-1\<close> (the normalized \<^verbatim>\<open>4dFr-1\<close>) starts no new chunk, while
  the signs of the example in the source each start one.
\<close>

theorem chunk_concat_reconstructs:
  "concat (chunk str) = str \<and>
   chunk ''4dfr-1'' = [''4dfr-1''] \<and>
   chunk ''3d6+1-2d2+4dfr-1'' = [''3d6'', ''+1'', ''-2d2'', ''+4dfr-1'']"
  by (simp add: chunk_def splitFrom_concat boundary_def isSign_def split: list.split)

subsection \<open>The length limit\<close>

lemma createModifier_not_too_long: "createModifier m rr num hi lo \<noteq> Inl ExpressionTooLong"
  by (simp add: createModifier_def Let_def split: option.split)

lemma rollFromGroups_not_too_long: "rollFromGroups rnd neg g \<noteq> Inl ExpressionTooLong"
  by (auto simp: rollFromGroups_def createModifier_not_too_long split: prod.split sum.split)

lemma createRoll_not_too_long: "createRoll rnd c \<noteq> Inl ExpressionTooLong"
  by (simp add: createRoll_def rollFromGroups_not_too_long split: option.split)

lemma createPart_not_too_long: "createPart rnd c \<noteq> Inl ExpressionTooLong"
  by (simp add: createPart_def createRoll_not_too_long)

lemma createParts_not_too_long: "createParts rnd cs \<noteq> Inl ExpressionTooLong"
proof (induction cs)
  case Nil
  show ?case by simp
next
  case (Cons c cs)
  with createPart_not_too_long [of rnd c] show ?case
    by (auto split: sum.split)
qed

text \<open>
  C2, as the code has it: parse fails with ExpressionTooLong exactly when the
  expression as given, spaces and all, is longer than 60 characters.
\<close>

theorem parse_too_long_iff_raw_length:
  "parse rnd expr = Inl ExpressionTooLong \<longleftrightarrow> 60 < length expr"
  using createParts_not_too_long [of rnd "chunk (normalized expr)"]
  by (auto simp: parse_def MAX_LENGTH_def Let_def split: sum.split)

text \<open>
  C2 as stated fails: \<^verbatim>\<open>2d6\<close> followed by 58 spaces has 61 characters and normalizes
  to the 3 characters \<^verbatim>\<open>2d6\<close>, and parse rejects it for its length.
\<close>

theorem parse_rejects_short_normalized:
  "parse scripted (''2d6'' @ replicate 58 (CHR '' '')) = Inl ExpressionTooLong \<and>
   length (normalized (''2d6'' @ replicate 58 (CHR '' ''))) \<le> 60"
proof -
  have "parse scripted (''2d6'' @ replicate 58 (CHR '' '')) = Inl ExpressionTooLong"
    by (simp add: parse_def MAX_LENGTH_def)
  moreover have "length (normalized (''2d6'' @ replicate 58 (CHR '' ''))) \<le> 60"
    by code_simp
  ultimately show ?thesis by simp
qed

subsection \<open>Keep and drop\<close>

text \<open>
  C6, as the code has it: keep-highest and keep-lowest sort the caller's list itself
  (descending, ascending) and return a new list of its first N entries; the caller's
  list holds the same elements as before, in sorted order.
\<close>

theorem keep_sorts_callers_list:
  "snd (keepHighest n rr rolls) = rev (sort rolls) \<and>
   mset (snd (keepHighest n rr rolls)) = mset rolls \<and>
   fst (keepHighest n rr rolls) = take (nat n) (snd (keepHighest n rr rolls)) \<and>
   snd (keepLowest n rr rolls) = sort rolls \<and>
   mset (snd (keepLowest n rr rolls)) = mset rolls \<and>
   fst (keepLowest n rr rolls) = take (nat n) (snd (keepLowest n rr rolls))"
  by (simp add: keepHighest_def keepLowest_def sortAsc_def sortDesc_def)

text \<open>
  C6 as stated fails: after keep-highest(1) the caller's list [1, 2] is [2, 1], and
  after keep-lowest(1) the caller's list [2, 1] is [1, 2].
\<close>

theorem keep_changes_callers_list:
  "snd (keepHighest 1 () [1, 2]) \<noteq> [1, 2] \<and> snd (keepLowest 1 () [2, 1]) \<noteq> [2, 1]"
  by (simp add: keepHighest_def keepLowest_def sortAsc_def sortDesc_def)

lemma sort_sortDesc: "sort (sortDesc rolls) = sort rolls"
  unfolding sortDesc_def
  by (rule properties_for_sort) simp_all

text \<open>
  C8: for 0 \<le> N \<le> count, keep-highest(N) and drop-lowest(count - N) of the same list
  return the same multiset, and so do keep-lowest(N) and drop-highest(count - N); this
  also holds when the second modifier is given the list as the first one left it.
\<close>

theorem keep_drop_complementary:
  "0 \<le> n \<Longrightarrow> n \<le> int (length rolls) \<Longrightarrow>
     mset (fst (keepHighest n rr rolls)) =
       mset (fst (dropLowest (int (length rolls) - n) rr rolls)) \<and>
     mset (fst (keepLowest n rr rolls)) =
       mset (fst (dropHighest (int (length rolls) - n) rr rolls)) \<and>
     mset (fst (dropLowest (int (length rolls) - n) rr (snd (keepHighest n rr rolls)))) =
       mset (fst (keepHighest n rr rolls)) \<and>
     mset (fst (dropHighest (int (length rolls) - n) rr (snd (keepLowest n rr rolls)))) =
       mset (fst (keepLowest n rr rolls))"
proof -
  assume a: "0 \<le> n" "n \<le> int (length rolls)"
  define k where "k = nat n"
  define xs where "xs = sort rolls"
  from a have k: "k \<le> length rolls" "nat (int (length rolls) - n) = length rolls - k"
    by (simp_all add: k_def)
  have l: "length xs = length rolls" by (simp add: xs_def)
  from k have kk: "length xs - (length xs - k) = k" by (simp add: l)
  have h1: "take k (rev xs) = rev (drop (length xs - k) xs)"
    by (rule take_rev)
  have h2: "drop (length xs - k) (rev xs) = rev (take k xs)"
    using drop_rev [of "length xs - k" xs] kk by simp
  have s1: "sortAsc (sortDesc rolls) = xs"
    by (simp add: sortAsc_def sort_sortDesc xs_def)
  have s2: "sortDesc (sortAsc rolls) = rev xs"
    by (simp add: sortAsc_def sortDesc_def xs_def sorted_sort_id)
  have kh: "keepHighest n rr rolls = (take k (rev xs), rev xs)"
    by (simp add: keepHighest_def sortDesc_def xs_def k_def)
  have kl: "keepLowest n rr rolls = (take k xs, xs)"
    by (simp add: keepLowest_def sortAsc_def xs_def k_def)
  have dl: "fst (dropLowest (int (length rolls) - n) rr rolls) = drop (length xs - k) xs"
    by (simp add: dropLowest_def sortAsc_def xs_def k)
  have dh: "fst (dropHighest (int (length rolls) - n) rr rolls) = drop (length xs - k) (rev xs)"
    by (simp add: dropHighest_def sortDesc_def xs_def k)
  have dl': "fst (dropLowest (int (length rolls) - n) rr (rev xs)) = drop (length xs - k) xs"
    using s1 by (simp add: dropLowest_def sortDesc_def xs_def k)
  have dh': "fst (dropHighest (int (length rolls) - n) rr xs) = drop (length xs - k) (rev xs)"
    using s2 by (simp add: dropHighest_def sortAsc_def xs_def k)
  show ?thesis
    unfolding kh kl dl dh fst_conv snd_conv dl' dh'
    by (simp add: h1 h2)
qed

theorem keep_drop_complementary_witness:
  "(0::int) \<le> 2 \<and> 2 \<le> int (length [3, 1, 2 :: int]) \<and>
     mset (fst (keepHighest 2 () [3, 1, 2])) =
       mset (fst (dropLowest (int (length [3, 1, 2 :: int]) - 2) () [3, 1, 2])) \<and>
     mset (fst (keepLowest 2 () [3, 1, 2])) =
       mset (fst (dropHighest (int (length [3, 1, 2 :: int]) - 2) () [3, 1, 2])) \<and>
     mset (fst (keepHighest 2 () [3, 1, 2])) = {#3, 2#} \<and>
     mset (fst (keepLowest 2 () [3, 1, 2])) = {#1, 2#}"
  using keep_drop_complementary [of 2 "[3, 1, 2]" "()"]
  by (simp add: keepHighest_def keepLowest_def sortAsc_def sortDesc_def)

subsection \<open>Default arguments\<close>

lemma modifierGroup_die: "modifierGroup n d r = Some (n', d', m) \<Longrightarrow> d' = d"
  by (simp add: modifierGroup_def split: if_splits)

lemma matchDiceChunk_die:
  "matchDiceChunk str = Some (numG, dieG, m) \<Longrightarrow>
     dieG = ''f'' \<or> dieG = ''%'' \<or> (dieG \<noteq> [] \<and> list_all isDigit dieG)"
proof -
  assume a: "matchDiceChunk str = Some (numG, dieG, m)"
  then obtain c afterD where d: "dropWhile isDigit str = c # afterD" "c = CHR ''d''"
    by (auto simp: matchDiceChunk_def Let_def split: list.splits if_splits)
  with a obtain f rest where r: "afterD = f # rest"
    by (auto simp: matchDiceChunk_def Let_def split: list.splits if_splits)
  show ?thesis
  proof (cases "f = CHR ''f'' \<or> f = CHR ''%''")
    case True
    with a d r have "modifierGroup (takeWhile isDigit str) [f] rest = Some (numG, dieG, m)"
      by (simp add: matchDiceChunk_def Let_def)
    then have "dieG = [f]" by (rule modifierGroup_die)
    with True show ?thesis by auto
  next
    case False
    with a d r have dg: "isDigit f"
      by (auto simp: matchDiceChunk_def Let_def split: if_splits)
    with False a d r have
      "modifierGroup (takeWhile isDigit str) (takeWhile isDigit afterD) (dropWhile isDigit afterD)
         = Some (numG, dieG, m)"
      by (simp add: matchDiceChunk_def Let_def)
    then have "dieG = takeWhile isDigit afterD" by (rule modifierGroup_die)
    with dg r have "dieG \<noteq> [] \<and> list_all isDigit dieG"
      by (simp add: list_all_iff) (meson set_takeWhileD)
    then show ?thesis by simp
  qed
qed

lemma toUpperChar_digit: "isDigit c \<Longrightarrow> toUpperChar c = c"
  by (auto simp: isDigit_def toUpperChar_def isLower_def)

lemma toUpperCase_digits: "list_all isDigit ds \<Longrightarrow> toUpperCase ds = ds"
  by (induction ds) (simp_all add: toUpperCase_def toUpperChar_digit)

lemma digitVal_nonneg: "isDigit c \<Longrightarrow> 0 \<le> digitVal c"
  by (auto simp: isDigit_def digitVal_def)

lemma foldl_digits_nonneg:
  "list_all isDigit ds \<Longrightarrow> 0 \<le> a \<Longrightarrow> 0 \<le> foldl (\<lambda>acc c. 10 * acc + digitVal c) a ds"
  by (induction ds arbitrary: a) (simp_all add: digitVal_nonneg)

lemma digitsValue_nonneg: "list_all isDigit ds \<Longrightarrow> 0 \<le> digitsValue ds"
  by (simp add: digitsValue_def foldl_digits_nonneg)

lemma toSafeInteger_digits:
  "ds \<noteq> [] \<Longrightarrow> list_all isDigit ds \<Longrightarrow>
     toSafeInteger ds = min MAX_SAFE_INTEGER (digitsValue ds)"
proof -
  assume a: "ds \<noteq> []" "list_all isDigit ds"
  then obtain c cs where c: "ds = c # cs" "isDigit c" by (cases ds) auto
  then have ns: "\<not> isSign c" by (auto simp: isDigit_def isSign_def)
  with c have d: "dropSign ds = ds" "\<not> startsWith (CHR ''-'') ds"
    by (auto simp: dropSign_def startsWith_def isSign_def)
  from a(2) have "0 \<le> digitsValue ds" by (rule digitsValue_nonneg)
  with a d show ?thesis
    by (simp add: toSafeInteger_def Let_def MAX_SAFE_INTEGER_def)
qed

lemma faces_of_die:
  assumes "dieG = ''f'' \<or> dieG = ''%'' \<or> (dieG \<noteq> [] \<and> list_all isDigit dieG)"
      and "dieFaces dieG \<le> MAX_FACES"
  shows "1 + dieOffset dieG = specLowestFace dieG"
    and "dieFaces dieG + dieOffset dieG = specHighestFace dieG"
proof -
  consider (f) "dieG = ''f''" | (p) "dieG = ''%''"
    | (d) "dieG \<noteq> []" "list_all isDigit dieG" "dieG \<noteq> ''f''" "dieG \<noteq> ''%''"
    using assms(1) by blast
  then have "1 + dieOffset dieG = specLowestFace dieG \<and>
             dieFaces dieG + dieOffset dieG = specHighestFace dieG"
  proof cases
    case f
    then show ?thesis
      by (simp add: dieOffset_def dieFaces_def specLowestFace_def specHighestFace_def
            toUpperCase_def toUpperChar_def isLower_def)
  next
    case p
    then show ?thesis
      by (simp add: dieOffset_def dieFaces_def specLowestFace_def specHighestFace_def
            toUpperCase_def toUpperChar_def isLower_def)
  next
    case d
    from d(2) have u: "toUpperCase dieG = dieG" by (rule toUpperCase_digits)
    from d(1,2) have nF: "dieG \<noteq> ''F''" by (auto simp: isDigit_def)
    from d(1,2) have ts: "toSafeInteger dieG = min MAX_SAFE_INTEGER (digitsValue dieG)"
      by (rule toSafeInteger_digits)
    from u nF d(4) ts have df: "dieFaces dieG = min MAX_SAFE_INTEGER (digitsValue dieG)"
      by (simp add: dieFaces_def)
    with assms(2) have "dieFaces dieG = digitsValue dieG"
      by (simp add: MAX_FACES_def MAX_SAFE_INTEGER_def min_def split: if_splits)
    with u nF d(3,4) show ?thesis
      by (simp add: dieOffset_def specLowestFace_def specHighestFace_def)
  qed
  then show "1 + dieOffset dieG = specLowestFace dieG"
    and "dieFaces dieG + dieOffset dieG = specHighestFace dieG" by simp_all
qed

lemma token_func:
  "tok \<in> set [''r'', ''t'', ''!'', ''kh'', ''kl'', ''dh'', ''dl''] \<Longrightarrow>
     takeWhile isFuncChar tok = tok \<and> dropWhile isFuncChar tok = []"
  by (auto simp: isFuncChar_def isLower_def)

lemma token_registered:
  "tok \<in> set [''r'', ''t'', ''!'', ''kh'', ''kl'', ''dh'', ''dl''] \<Longrightarrow>
     modifierFunctions (toUpperCase tok) \<noteq> None"
  by (auto simp: toUpperCase_def toUpperChar_def isLower_def modifierFunctions_def)

lemma token_default:
  "tok \<in> set [''r'', ''t'', ''!'', ''kh'', ''kl'', ''dh'', ''dl''] \<Longrightarrow>
     defaultModifierArg (toUpperCase tok) num lo hi =
       (if tok = ''r'' then lo else if tok = ''t'' \<or> tok = ''!'' then hi else min 1 (num - 1))"
  by (auto simp: toUpperCase_def toUpperChar_def isLower_def defaultModifierArg_def)


text \<open>
  C3: a dice-pool chunk whose modifier group is a bare token, and which passes the two
  limits, compiles to the pipeline roll the pool, apply the modifier, negate if
  negative, where the modifier is the registered function of the token applied to the
  default argument of the specification: the lowest face for reroll, the highest face
  for count-twice and explode (-1 and +1 for Fudge dice, 1 and 100 for percentile
  dice), and min(1, count - 1) for every keep/drop.
\<close>

theorem default_argument_resolution:
  assumes "matchDiceChunk (rollExprOf c) = Some (numG, dieG, Some tok)"
      and "tok \<in> set [''r'', ''t'', ''!'', ''kh'', ''kl'', ''dh'', ''dl'']"
      and "poolSize numG \<le> MAX_DICE" and "dieFaces dieG \<le> MAX_FACES"
  shows "\<exists>f. modifierFunctions (toUpperCase tok) = Some f \<and>
           createRoll (rnd :: int \<Rightarrow> 's \<Rightarrow> int \<times> 's) c =
             Inr (rollChunk
                    (diceFunc rnd (dieFaces dieG) (dieOffset dieG) (nat (poolSize numG)))
                    (f (specDefaultArg tok (poolSize numG) dieG)
                       (rollOne rnd (dieFaces dieG) (dieOffset dieG)))
                    (startsWith (CHR ''-'') c))"
proof -
  from assms(1) have shape:
    "dieG = ''f'' \<or> dieG = ''%'' \<or> (dieG \<noteq> [] \<and> list_all isDigit dieG)"
    by (rule matchDiceChunk_die)
  note faces = faces_of_die [OF shape assms(4)]
  from token_func [OF assms(2)]
  have tk: "takeWhile isFuncChar tok = tok" and dk: "dropWhile isFuncChar tok = []"
    by simp_all
  have "modifierArg tok (poolSize numG) (1 + dieOffset dieG) (dieFaces dieG + dieOffset dieG)
          = defaultModifierArg (toUpperCase tok) (poolSize numG)
              (1 + dieOffset dieG) (dieFaces dieG + dieOffset dieG)"
    by (simp add: modifierArg_def tk dk)
  also have "\<dots> = specDefaultArg tok (poolSize numG) dieG"
    unfolding token_default [OF assms(2)] specDefaultArg_def faces by (rule refl)
  finally have arg:
    "modifierArg tok (poolSize numG) (1 + dieOffset dieG) (dieFaces dieG + dieOffset dieG)
       = specDefaultArg tok (poolSize numG) dieG" .
  from token_registered [OF assms(2)]
  obtain f :: "int \<Rightarrow> ('s \<Rightarrow> int \<times> 's) \<Rightarrow> 's modifierFunction"
    where f: "modifierFunctions (toUpperCase tok) = Some f" by blast
  from assms(1,3,4) have
    "createRoll rnd c =
       Inr (rollChunk
              (diceFunc rnd (dieFaces dieG) (dieOffset dieG) (nat (poolSize numG)))
              (f (specDefaultArg tok (poolSize numG) dieG)
                 (rollOne rnd (dieFaces dieG) (dieOffset dieG)))
              (startsWith (CHR ''-'') c))"
    by (simp add: createRoll_def rollFromGroups_def createModifier_def Let_def tk f arg)
  with f show ?thesis by blast
qed

theorem default_argument_resolution_witness:
  "matchDiceChunk (rollExprOf ''-3dfr'') = Some (''3'', ''f'', Some ''r'') \<and>
   ''r'' \<in> set [''r'', ''t'', ''!'', ''kh'', ''kl'', ''dh'', ''dl''] \<and>
   poolSize ''3'' \<le> MAX_DICE \<and> dieFaces ''f'' \<le> MAX_FACES \<and>
   specDefaultArg ''r'' (poolSize ''3'') ''f'' = - 1 \<and>
   (\<exists>f. modifierFunctions (toUpperCase ''r'') = Some f \<and>
        createRoll scripted ''-3dfr'' =
          Inr (rollChunk
                 (diceFunc scripted (dieFaces ''f'') (dieOffset ''f'') (nat (poolSize ''3'')))
                 (f (specDefaultArg ''r'' (poolSize ''3'') ''f'')
                    (rollOne scripted (dieFaces ''f'') (dieOffset ''f'')))
                 (startsWith (CHR ''-'') ''-3dfr'')))"
proof -
  have a: "matchDiceChunk (rollExprOf ''-3dfr'') = Some (''3'', ''f'', Some ''r'')"
    by code_simp
  have b: "''r'' \<in> set [''r'', ''t'', ''!'', ''kh'', ''kl'', ''dh'', ''dl'']"
    by simp
  have c: "poolSize ''3'' \<le> MAX_DICE"
    by code_simp
  have d: "dieFaces ''f'' \<le> MAX_FACES"
    by code_simp
  have e: "specDefaultArg ''r'' (poolSize ''3'') ''f'' = - 1"
    by code_simp
  from default_argument_resolution [OF a b c d, of scripted] a b c d e
  show ?thesis by blast
qed

subsection \<open>Reduced and unreduced results\<close>

lemma foldl_plus: "foldl (+) (a::int) xs = a + sum_list xs"
  by (induction xs arbitrary: a) simp_all

lemma parse_evaluator: "parse rnd expr = Inr ev \<Longrightarrow> \<exists>parts. ev = evaluator parts"
  by (auto simp: parse_def Let_def split: if_splits sum.splits)

text \<open>
  C9: when the chunks of a compiled expression produce no value at all, the
  evaluation with reduce = true fails with a TypeError, which is none of the error
  kinds of the module; \<^verbatim>\<open>1d6dl1\<close> is such an expression.
\<close>

theorem reduce_of_no_rolls_fails:
  "parseAndRoll rnd expr False s = Inr (Inr (Unreduced vs)) \<Longrightarrow> flat vs = [] \<Longrightarrow>
     parseAndRoll rnd expr True s = Inr (Inl TypeError)"
proof -
  assume a: "parseAndRoll rnd expr False s = Inr (Inr (Unreduced vs))" and b: "flat vs = []"
  from a obtain ev where ev: "parse rnd expr = Inr ev" "fst (ev False s) = Inr (Unreduced vs)"
    by (auto simp: parseAndRoll_def split: sum.splits)
  from ev(1) obtain parts where p: "ev = evaluator parts"
    using parse_evaluator by blast
  obtain r s' where r: "roll parts s = (r, s')" by (cases "roll parts s")
  from ev(2) p r have "r = Inr vs"
    by (cases r) (simp_all add: evaluator_def)
  with r b have "fst (evaluator parts True s) = Inl TypeError"
    by (simp add: evaluator_def reduceSum_def)
  with ev(1) p show ?thesis
    by (simp add: parseAndRoll_def)
qed

theorem reduce_of_no_rolls_fails_witness:
  "parseAndRoll scripted ''1d6dl1'' False (noValues(6 := [4])) = Inr (Inr (Unreduced [Pool []])) \<and>
   flat [Pool []] = [] \<and>
   parseAndRoll scripted ''1d6dl1'' True (noValues(6 := [4])) = Inr (Inl TypeError)"
proof -
  have a: "parseAndRoll scripted ''1d6dl1'' False (noValues(6 := [4])) = Inr (Inr (Unreduced [Pool []]))"
    by code_simp
  have b: "flat [Pool []] = []"
    by (simp add: flat_def)
  from reduce_of_no_rolls_fails [OF a b] a b show ?thesis by simp
qed

text \<open>
  The unreduced result has one entry per chunk of the normalized expression, in
  order: an array for a dice-pool chunk, the bare value for a constant chunk.
\<close>

lemma rollChunk_Pool:
  "rollChunk rd am neg s = (Inr v, s') \<Longrightarrow> (case v of Pool rolls \<Rightarrow> True | Scalar n \<Rightarrow> False)"
  by (auto simp: rollChunk_def split: prod.splits sum.splits)

lemma rollFromGroups_rollChunk:
  "rollFromGroups rnd neg g = Inr p \<Longrightarrow> \<exists>rd am. p = rollChunk rd am neg"
proof -
  assume a: "rollFromGroups rnd neg g = Inr p"
  obtain numG dieG m where g: "g = (numG, dieG, m)" by (cases g)
  show ?thesis
  proof (cases "createModifier m (rollOne rnd (dieFaces dieG) (dieOffset dieG))
                  (poolSize numG) (1 + dieOffset dieG) (dieFaces dieG + dieOffset dieG)")
    case (Inl e)
    with a g show ?thesis
      by (simp add: rollFromGroups_def split: if_splits)
  next
    case (Inr am)
    with a g have
      "p = rollChunk (diceFunc rnd (dieFaces dieG) (dieOffset dieG) (nat (poolSize numG))) am neg"
      by (simp add: rollFromGroups_def split: if_splits)
    then show ?thesis by blast
  qed
qed

lemma createRoll_rollChunk:
  "createRoll rnd c = Inr p \<Longrightarrow> \<exists>rd am neg. p = rollChunk rd am neg"
proof -
  assume a: "createRoll rnd c = Inr p"
  then obtain g where "rollFromGroups rnd (startsWith (CHR ''-'') c) g = Inr p"
    by (cases "matchDiceChunk (rollExprOf c)") (simp_all add: createRoll_def)
  then show ?thesis
    using rollFromGroups_rollChunk by blast
qed

lemma createPart_kind:
  "createPart rnd c = Inr p \<Longrightarrow> p s = (Inr v, s') \<Longrightarrow> partOfChunk c v"
proof (cases "CHR ''d'' \<in> set c")
  case True
  assume a: "createPart rnd c = Inr p" "p s = (Inr v, s')"
  with True have "createRoll rnd c = Inr p" by (simp add: createPart_def)
  then obtain rd am neg where e: "p = rollChunk rd am neg"
    using createRoll_rollChunk by blast
  from a(2) have "rollChunk rd am neg s = (Inr v, s')" unfolding e .
  then have "case v of Pool rolls \<Rightarrow> True | Scalar n \<Rightarrow> False"
    by (rule rollChunk_Pool)
  with True show ?thesis by (simp add: partOfChunk_def)
next
  case False
  assume a: "createPart rnd c = Inr p" "p s = (Inr v, s')"
  from a(1) False have "p = createConst c" by (simp add: createPart_def)
  with a(2) have "v = Scalar (toSafeInteger c)" by (simp add: createConst_def)
  with False show ?thesis
    by (simp add: partOfChunk_def)
qed

lemma roll_parts_kinds:
  "createParts rnd cs = Inr ps \<Longrightarrow> roll ps s = (Inr vs, s') \<Longrightarrow> list_all2 partOfChunk cs vs"
proof (induction cs arbitrary: ps s vs)
  case Nil
  then show ?case by auto
next
  case (Cons c cs)
  from Cons.prems(1) obtain p ps' where p:
    "createPart rnd c = Inr p" "createParts rnd cs = Inr ps'" "ps = p # ps'"
    by (auto split: sum.splits)
  from Cons.prems(2) p(3) obtain v s1 vs' where v:
    "p s = (Inr v, s1)" "roll ps' s1 = (Inr vs', s')" "vs = v # vs'"
    by (auto split: prod.splits sum.splits)
  from createPart_kind [OF p(1) v(1)] Cons.IH [OF p(2) v(2)] v(3)
  show ?case by simp
qed

lemma unreduced_one_entry_per_chunk:
  "parseAndRoll rnd expr False s = Inr (Inr (Unreduced vs)) \<Longrightarrow>
     list_all2 partOfChunk (chunk (normalized expr)) vs"
proof -
  assume a: "parseAndRoll rnd expr False s = Inr (Inr (Unreduced vs))"
  then obtain ev where ev: "parse rnd expr = Inr ev" "fst (ev False s) = Inr (Unreduced vs)"
    by (auto simp: parseAndRoll_def split: sum.splits)
  from ev(1) obtain ps where ps:
    "createParts rnd (chunk (normalized expr)) = Inr ps" "ev = evaluator ps"
    by (auto simp: parse_def Let_def split: if_splits sum.splits)
  obtain r s' where r: "roll ps s = (r, s')" by (cases "roll ps s")
  from ev(2) ps(2) r have "r = Inr vs"
    by (cases r) (simp_all add: evaluator_def)
  with r have "roll ps s = (Inr vs, s')" by simp
  with ps(1) show ?thesis
    by (rule roll_parts_kinds)
qed

text \<open>
  Whenever the chunks produce at least one value, the reduced result is the sum of
  the flattened unreduced result.
\<close>

lemma reduced_is_sum_of_flat:
  "parseAndRoll rnd expr False s = Inr (Inr (Unreduced vs)) \<Longrightarrow> flat vs \<noteq> [] \<Longrightarrow>
     parseAndRoll rnd expr True s = Inr (Inr (Reduced (sum_list (flat vs))))"
proof -
  assume a: "parseAndRoll rnd expr False s = Inr (Inr (Unreduced vs))" and b: "flat vs \<noteq> []"
  from a obtain ev where ev: "parse rnd expr = Inr ev" "fst (ev False s) = Inr (Unreduced vs)"
    by (auto simp: parseAndRoll_def split: sum.splits)
  from ev(1) obtain parts where p: "ev = evaluator parts"
    using parse_evaluator by blast
  obtain r s' where r: "roll parts s = (r, s')" by (cases "roll parts s")
  from ev(2) p r have "r = Inr vs"
    by (cases r) (simp_all add: evaluator_def)
  with r b have "fst (evaluator parts True s) = Inr (Reduced (sum_list (flat vs)))"
    by (cases "flat vs") (simp_all add: evaluator_def reduceSum_def foldl_plus)
  with ev(1) p show ?thesis
    by (simp add: parseAndRoll_def)
qed

text \<open>
  The scenario of the tests: \<^verbatim>\<open>4d6+1-2d4+2\<close> with the d6 showing 3, 2, 4, 1 and the d4
  showing 1, 3.
\<close>

lemma roll_scenario:
  "parseAndRoll scripted ''4d6+1-2d4+2'' False (noValues(6 := [3, 2, 4, 1], 4 := [1, 3])) =
     Inr (Inr (Unreduced [Pool [3, 2, 4, 1], Scalar 1, Pool [- 1, - 3], Scalar 2])) \<and>
   parseAndRoll scripted ''4d6+1-2d4+2'' True (noValues(6 := [3, 2, 4, 1], 4 := [1, 3])) =
     Inr (Inr (Reduced 9))"
  by code_simp

text \<open>
  C4: \<^verbatim>\<open>1d1dl1\<close> is a valid expression (the tests list it as one that "will always roll
  0"). Its unreduced result is one empty pool, whose flattened sum is 0, but its
  reduced evaluation fails with a TypeError instead of returning 0.
\<close>

theorem reduced_differs_from_sum_on_empty_pool:
  "parseAndRoll scripted ''1d1dl1'' False (noValues(1 := [1])) =
     Inr (Inr (Unreduced [Pool []])) \<and>
   sum_list (flat [Pool []]) = 0 \<and>
   parseAndRoll scripted ''1d1dl1'' True (noValues(1 := [1])) = Inr (Inl TypeError)"
  by code_simp

text \<open>
  C5: \<^verbatim>\<open>4d10!\<close> with the d10 showing 7, 10, 5, 4, 10, 3. The pool is 7, 10, 5, 4; the 10
  stays where it is and the die rolled for it, a 10, is put after it; that new 10
  explodes in turn and the 3 rolled for it follows it.
\<close>

theorem explode_scenario:
  "parseAndRoll scripted ''4d10!'' False (noValues(10 := [7, 10, 5, 4, 10, 3])) =
     Inr (Inr (Unreduced [Pool [7, 10, 10, 3, 5, 4]]))"
  by code_simp

end
